theory Spec2Isabelle
  imports Main "HOL-Library.Word" "HOL-Library.Code_Target_Nat"
begin

unbundle bit_operations_syntax

section \<open>Go values and the library calls of pkg/diagnostics/tracing.go\<close>

text \<open>
  The helpers call the Go standard library (\<open>strings\<close>, \<open>encoding/hex\<close>,
  \<open>strconv\<close>, \<open>fmt\<close>); the functions they call are modelled here from the
  library's documented behaviour.
  A Go string is a sequence of bytes, here a \<open>string\<close>.  A byte is an \<open>8 word\<close>,
  the trace options are a \<open>32 word\<close> (Go's \<open>uint32\<close>), and the \<open>uint64\<close> that
  \<open>strconv.ParseUint\<close> computes with is a \<open>nat\<close> with its wrap-around written out.
  A run-time panic is a value of type \<open>panic\<close>: a function that can panic returns
  \<open>panic + 'a\<close>, with \<open>Inl\<close> for the panic.
\<close>

type_synonym byte = "8 word"

datatype panic =
    IndexOutOfRange nat nat  \<comment> \<open>index out of range [i] with length n\<close>
  | NilPointerDereference

text \<open>\<open>xs[i]\<close> on a slice: Go checks the bound and panics outside it.\<close>

definition index :: "'a list \<Rightarrow> nat \<Rightarrow> panic + 'a" where
  "index xs i = (if i < length xs then Inr (xs ! i) else Inl (IndexOutOfRange i (length xs)))"

text \<open>
  \<open>copy(dst, src)\<close>: the first \<open>min (len dst) (len src)\<close> elements of \<open>dst\<close> are
  overwritten, the rest of \<open>dst\<close> stays.  The model returns the new \<open>dst\<close>.
\<close>

definition copy :: "'a list \<Rightarrow> 'a list \<Rightarrow> 'a list" where
  "copy dst src = take (length dst) src @ drop (length src) dst"

subsection \<open>strings.Split\<close>

text \<open>
  \<open>strings.Split(s, sep)\<close> for a one-byte separator: find the next separator
  (\<open>Index\<close>), cut the field before it, go on behind it; what is left when no separator
  is found is the last field.  The result always has at least one field.
\<close>

function Split :: "string \<Rightarrow> char \<Rightarrow> string list" where
  "Split s sep =
     (case dropWhile (\<lambda>c. c \<noteq> sep) s of
        [] \<Rightarrow> [s]
      | _ # rest \<Rightarrow> takeWhile (\<lambda>c. c \<noteq> sep) s # Split rest sep)"
  by pat_completeness auto
termination
proof (relation "measure (\<lambda>(s, sep). length s)")
  show "wf (measure (\<lambda>(s, sep). length s))" by simp
next
  fix s :: string and sep :: char and x rest
  assume "dropWhile (\<lambda>c. c \<noteq> sep) s = x # rest"
  then have "length (x # rest) \<le> length s"
    using length_dropWhile_le [of "\<lambda>c. c \<noteq> sep" s] by simp
  then show "((rest, sep), (s, sep)) \<in> measure (\<lambda>(s, sep). length s)" by simp
qed

declare Split.simps [simp del]

subsection \<open>encoding/hex\<close>

datatype hex_error = InvalidByteError char | ErrLength

text \<open>
  \<open>fromHexChar\<close>: \<open>'0'..'9'\<close> are the codes 48..57, \<open>'a'..'f'\<close> 97..102,
  \<open>'A'..'F'\<close> 65..70.
\<close>

definition fromHexChar :: "char \<Rightarrow> byte option" where
  "fromHexChar c =
     (let n = (of_char c :: nat) in
      if 48 \<le> n \<and> n \<le> 57 then Some (of_nat (n - 48))
      else if 97 \<le> n \<and> n \<le> 102 then Some (of_nat (n - 97 + 10))
      else if 65 \<le> n \<and> n \<le> 70 then Some (of_nat (n - 65 + 10))
      else None)"

text \<open>
  \<open>hex.DecodeString\<close> (Go 1.10 and later): two characters give one byte; at a
  character that is no hex digit, or at an odd length, it returns the error together
  with the bytes decoded before it.
\<close>

fun DecodeString :: "string \<Rightarrow> byte list \<times> hex_error option" where
  "DecodeString (p # q # rest) =
     (case fromHexChar p of
        None \<Rightarrow> ([], Some (InvalidByteError p))
      | Some a \<Rightarrow>
          (case fromHexChar q of
             None \<Rightarrow> ([], Some (InvalidByteError q))
           | Some b \<Rightarrow>
               (case DecodeString rest of
                  (bs, err) \<Rightarrow> ((push_bit 4 a OR b) # bs, err))))"
| "DecodeString [p] =
     (case fromHexChar p of
        None \<Rightarrow> ([], Some (InvalidByteError p))
      | Some a \<Rightarrow> ([], Some ErrLength))"
| "DecodeString [] = ([], None)"

text \<open>
  \<open>SpanID.String()\<close> and \<open>TraceID.String()\<close> are \<open>fmt.Sprintf("%02x", id[:])\<close>:
  every byte as two digits of \<open>hextable\<close>, high nibble first.
\<close>

definition hextable :: string where
  "hextable = ''0123456789abcdef''"

definition ID_String :: "byte list \<Rightarrow> string" where
  "ID_String src =
     concat (map (\<lambda>v. [hextable ! unat (drop_bit 4 v), hextable ! unat (v AND 15)]) src)"

subsection \<open>strconv.ParseUint and the verb %d\<close>

datatype num_error = ErrSyntax | ErrRange

definition maxUint64 :: nat where
  "maxUint64 = 2 ^ 64 - 1"

text \<open>The value of a digit or letter; \<open>None\<close> is the \<open>default\<close> case of the switch.\<close>

definition digit_val :: "char \<Rightarrow> nat option" where
  "digit_val c =
     (let n = (of_char c :: nat) in
      if 48 \<le> n \<and> n \<le> 57 then Some (n - 48)
      else if 97 \<le> n \<and> n \<le> 122 then Some (n - 97 + 10)
      else if 65 \<le> n \<and> n \<le> 90 then Some (n - 65 + 10)
      else None)"

text \<open>
  The loop of \<open>ParseUint\<close> over the bytes of \<open>s\<close>, for a base in 2..36: a character
  that is no digit of the base is a syntax error with value 0; a value that leaves the
  range is a range error with value \<open>maxVal\<close>, returned at once.
\<close>

fun ParseUint_loop :: "nat \<Rightarrow> nat \<Rightarrow> nat \<Rightarrow> nat \<Rightarrow> string \<Rightarrow> nat \<times> num_error option" where
  "ParseUint_loop base cutoff maxVal n [] = (n, None)"
| "ParseUint_loop base cutoff maxVal n (c # cs) =
     (case digit_val c of
        None \<Rightarrow> (0, Some ErrSyntax)
      | Some d \<Rightarrow>
          if base \<le> d then (0, Some ErrSyntax)
          else if cutoff \<le> n then (maxVal, Some ErrRange)
          else
            (let n' = n * base; n1 = (n' + d) mod 2 ^ 64 in
             if n1 < n' \<or> maxVal < n1 then (maxVal, Some ErrRange)
             else ParseUint_loop base cutoff maxVal n1 cs))"

definition ParseUint :: "string \<Rightarrow> nat \<Rightarrow> nat \<Rightarrow> nat \<times> num_error option" where
  "ParseUint s base bitSize =
     (if s = [] then (0, Some ErrSyntax)
      else ParseUint_loop base (maxUint64 div base + 1) (2 ^ bitSize - 1) 0 s)"

text \<open>
  \<open>%d\<close> on an unsigned integer (\<open>fmtInteger\<close>): the digits are written from the
  last one backwards into the buffer.
\<close>

function fmtInteger :: "nat \<Rightarrow> string \<Rightarrow> string" where
  "fmtInteger u buf =
     (if 10 \<le> u then fmtInteger (u div 10) (char_of (48 + u mod 10) # buf)
      else char_of (48 + u) # buf)"
  by pat_completeness auto
termination
  by (relation "measure (\<lambda>(u, buf). u)") auto

declare fmtInteger.simps [simp del]

section \<open>The span context and its codec\<close>

text \<open>
  Modelled from the spec: \<open>trace.SpanContext\<close> is declared by the tracing runtime,
  outside this repository.  Section 3 of the specification gives it the three fields
  that the codec reads and writes.  \<open>SpanID\<close> is a \<open>[8]byte\<close> and \<open>TraceID\<close> a
  \<open>[16]byte\<close>: lists whose length the theorems state.
\<close>

record SpanContext =
  SpanID :: "byte list"
  TraceID :: "byte list"
  TraceOptions :: "32 word"

definition SerializeSpanContext :: "SpanContext \<Rightarrow> string" where
  "SerializeSpanContext ctx =
     ID_String (SpanID ctx) @ '';'' @ ID_String (TraceID ctx) @ '';'' @
     fmtInteger (unat (TraceOptions ctx)) []"

text \<open>
  The three errors are dropped (\<open>_\<close> in the source).  \<open>parts[0]\<close>, \<open>parts[1]\<close> and
  \<open>parts[2]\<close> are read in this order, each with its bound check.
\<close>

definition DeserializeSpanContext :: "string \<Rightarrow> panic + SpanContext" where
  "DeserializeSpanContext ctx =
     (let parts = Split ctx CHR '';'' in
      case index parts 0 of Inl e \<Rightarrow> Inl e | Inr p0 \<Rightarrow>
      (case DecodeString p0 of (spanID, _) \<Rightarrow>
      (case index parts 1 of Inl e \<Rightarrow> Inl e | Inr p1 \<Rightarrow>
      (case DecodeString p1 of (traceID, _) \<Rightarrow>
      (case index parts 2 of Inl e \<Rightarrow> Inl e | Inr p2 \<Rightarrow>
      (case ParseUint p2 10 32 of (traceOptions, _) \<Rightarrow>
         (let ret = \<lparr>SpanID = replicate 8 0, TraceID = replicate 16 0, TraceOptions = 0\<rparr>;
              ret = ret\<lparr>SpanID := copy (SpanID ret) spanID\<rparr>;
              ret = ret\<lparr>TraceID := copy (TraceID ret) traceID\<rparr>;
              ret = ret\<lparr>TraceOptions := of_nat traceOptions\<rparr>
          in Inr ret)))))))"

text \<open>A \<open>*trace.SpanContext\<close> is an \<open>option\<close>: \<open>None\<close> is \<open>nil\<close>.\<close>

definition DeserializeSpanContextPointer :: "string \<Rightarrow> panic + SpanContext option" where
  "DeserializeSpanContextPointer ctx =
     (if ctx = [] then Inr None
      else (case DeserializeSpanContext ctx of
              Inl e \<Rightarrow> Inl e
            | Inr context \<Rightarrow> Inr (Some context)))"

subsection \<open>strings.Join\<close>

fun Join :: "string list \<Rightarrow> string \<Rightarrow> string" where
  "Join [] sep = []"
| "Join [x] sep = x"
| "Join (x # y # ys) sep = x @ sep @ Join (y # ys) sep"

section \<open>The tracing runtime, as the helpers use it\<close>

text \<open>
  Modelled from the spec: the span is a handle of the tracing runtime
  (go.opencensus.io/trace, outside this repository), and sections 3 and 6 of the
  specification list what the helpers use of it.  The model keeps of it what the helpers
  decide: the operation name, how
  the span was started, the identity the runtime gave it, and the calls made on it, in
  order.  What the runtime does with a call (sampling, storage, export) is not
  modelled.  The identity of a new span is the runtime's choice: the functions that
  start spans take that choice as the parameter \<open>ids\<close>.
\<close>

datatype Attribute = StringAttribute string string  \<comment> \<open>key, value\<close>

datatype span_call =
    AnnotateCall "Attribute list" string
  | AddAttributesCall "Attribute list"
  | SetStatusCall int string

datatype parent =
    NoParent
  | LocalParent SpanContext
  | RemoteParent SpanContext

record Span =
  Name :: string
  Parent :: parent
  own_context :: SpanContext
  Calls :: "span_call list"

type_synonym id_source = "string \<Rightarrow> parent \<Rightarrow> SpanContext"

text \<open>
  A \<open>context.Context\<close> is the identity of the span it carries, if any;
  \<open>context.Background()\<close> carries none.
\<close>

type_synonym Context = "SpanContext option"

definition Background :: Context where
  "Background = None"

text \<open>
  \<open>trace.StartSpan\<close>: the parent is the span of the context, a new root without
  one.  \<open>trace.StartSpanWithRemoteParent\<close>: the parent is the span context given.
  Both return a span that is not \<open>nil\<close>, and a context that carries it.
\<close>

definition StartSpan :: "id_source \<Rightarrow> Context \<Rightarrow> string \<Rightarrow> Context \<times> Span option" where
  "StartSpan ids ctx name =
     (let p = (case ctx of None \<Rightarrow> NoParent | Some sc \<Rightarrow> LocalParent sc);
          span = \<lparr>Name = name, Parent = p, own_context = ids name p, Calls = []\<rparr>
      in (Some (own_context span), Some span))"

definition StartSpanWithRemoteParent ::
    "id_source \<Rightarrow> Context \<Rightarrow> string \<Rightarrow> SpanContext \<Rightarrow> Context \<times> Span option" where
  "StartSpanWithRemoteParent ids ctx name parent =
     (let p = RemoteParent parent;
          span = \<lparr>Name = name, Parent = p, own_context = ids name p, Calls = []\<rparr>
      in (Some (own_context span), Some span))"

text \<open>The methods of \<open>*trace.Span\<close> do nothing on a \<open>nil\<close> receiver.\<close>

definition Annotate :: "Span option \<Rightarrow> Attribute list \<Rightarrow> string \<Rightarrow> Span option" where
  "Annotate span attributes str =
     map_option (\<lambda>s. s\<lparr>Calls := Calls s @ [AnnotateCall attributes str]\<rparr>) span"

definition AddAttributes :: "Span option \<Rightarrow> Attribute list \<Rightarrow> Span option" where
  "AddAttributes span attributes =
     map_option (\<lambda>s. s\<lparr>Calls := Calls s @ [AddAttributesCall attributes]\<rparr>) span"

definition SetStatus :: "Span option \<Rightarrow> int \<Rightarrow> string \<Rightarrow> Span option" where
  "SetStatus span code message =
     map_option (\<lambda>s. s\<lparr>Calls := Calls s @ [SetStatusCall code message]\<rparr>) span"

definition Span_SpanContext :: "Span option \<Rightarrow> SpanContext" where
  "Span_SpanContext span =
     (case span of
        None \<Rightarrow> \<lparr>SpanID = replicate 8 0, TraceID = replicate 16 0, TraceOptions = 0\<rparr>
      | Some s \<Rightarrow> own_context s)"

section \<open>Events\<close>

text \<open>
  An \<open>interface{}\<close> value is an \<open>option\<close> (\<open>None\<close> is \<open>nil\<close>) over a payload type
  \<open>'v\<close>; \<open>time.Time\<close> is a type \<open>'t\<close>.  How the libraries print them
  (\<open>Time.String\<close>, and \<open>%v\<close> on a payload that is not \<open>nil\<close>) is the parameter
  \<open>fm\<close>; \<open>%v\<close> prints \<open>nil\<close> as \<open><nil>\<close>.
\<close>

record 'v KeyValState =
  Key :: string
  Value :: "'v option"

record ('t, 'v) Event =
  EventName :: string
  To :: "string list"
  Concurrency :: string
  CreatedAt :: 't
  State :: "'v KeyValState list"
  Data :: "'v option"

record ('t, 'v) printers =
  Time_String :: "'t \<Rightarrow> string"
  Sprint :: "'v \<Rightarrow> string"

definition Sprintf_v :: "('t, 'v) printers \<Rightarrow> 'v option \<Rightarrow> string" where
  "Sprintf_v fm a = (case a of None \<Rightarrow> ''<nil>'' | Some v \<Rightarrow> Sprint fm v)"

text \<open>The slice literal \<open>attrs\<close> of \<open>AddEventAnnotations\<close>, for one event.\<close>

definition event_attrs :: "('t, 'v) printers \<Rightarrow> ('t, 'v) Event \<Rightarrow> Attribute list" where
  "event_attrs fm e =
     [StringAttribute ''eventName'' (EventName e),
      StringAttribute ''createdAt'' (Time_String fm (CreatedAt e)),
      StringAttribute ''concurrency'' (Concurrency e),
      StringAttribute ''to'' (Join (To e) '','')]"

text \<open>The body of the loop of \<open>AddEventAnnotations\<close>, for one event.\<close>

definition annotate_event ::
    "('t, 'v) printers \<Rightarrow> ('t, 'v) Event \<Rightarrow> Span option \<Rightarrow> bool \<Rightarrow> Span option" where
  "annotate_event fm e span includeEventBody =
     (let attrs = event_attrs fm e;
          span = Annotate span attrs ''message'';
          attrs = (if includeEventBody
                   then attrs @ [StringAttribute ''data'' (Sprintf_v fm (Data e))]
                   else attrs)
      in AddAttributes span attrs)"

fun annotate_events ::
    "('t, 'v) printers \<Rightarrow> ('t, 'v) Event list \<Rightarrow> Span option \<Rightarrow> bool \<Rightarrow> Span option" where
  "annotate_events fm [] span includeEventBody = span"
| "annotate_events fm (e # es) span includeEventBody =
     annotate_events fm es (annotate_event fm e span includeEventBody) includeEventBody"

text \<open>
  \<open>events\<close> is a \<open>*[]Event\<close>: \<open>None\<close> is \<open>nil\<close>, and \<open>range *events\<close> dereferences
  it before the first iteration.  The function returns the span as the calls leave it.
\<close>

definition AddEventAnnotations ::
    "('t, 'v) printers \<Rightarrow> ('t, 'v) Event list option \<Rightarrow> Span option \<Rightarrow> bool \<Rightarrow>
     panic + Span option" where
  "AddEventAnnotations fm events span includeEventBody =
     (case events of
        None \<Rightarrow> Inl NilPointerDereference
      | Some es \<Rightarrow> Inr (annotate_events fm es span includeEventBody))"

section \<open>Starting spans\<close>

definition CorrelationID :: string where
  "CorrelationID = ''correlation-id''"

definition TraceSpanFromCorrelationId ::
    "id_source \<Rightarrow> string \<Rightarrow> string \<Rightarrow> string \<Rightarrow> string \<Rightarrow> string \<Rightarrow> string \<Rightarrow>
     panic + (Context \<times> Span option)" where
  "TraceSpanFromCorrelationId ids corID operation actionMethod targetID from verbMethod =
     (case (if corID \<noteq> []
            then (case DeserializeSpanContext corID of
                    Inl e \<Rightarrow> Inl e
                  | Inr spanContext \<Rightarrow>
                      Inr (StartSpanWithRemoteParent ids Background operation spanContext))
            else Inr (StartSpan ids Background operation)) of
        Inl e \<Rightarrow> Inl e
      | Inr (ctx, span) \<Rightarrow>
          (let attrs = [StringAttribute ''actionMethod'' actionMethod,
                        StringAttribute ''targetID'' targetID,
                        StringAttribute ''from'' from,
                        StringAttribute ''verbMethod'' verbMethod];
               span = Annotate span attrs ''actionCall'';
               span = AddAttributes span attrs
           in Inr (ctx, span)))"

definition TraceSpanFromContext ::
    "id_source \<Rightarrow> ('t, 'v) printers \<Rightarrow> Context \<Rightarrow> ('t, 'v) Event list option \<Rightarrow> string \<Rightarrow>
     bool \<Rightarrow> bool \<Rightarrow> panic + (Context \<times> Span option \<times> SpanContext option)" where
  "TraceSpanFromContext ids fm c events operation includeEvent includeEventBody =
     (case StartSpan ids c operation of (ctx, span) \<Rightarrow>
        (case (if includeEvent then AddEventAnnotations fm events span includeEventBody
               else Inr span) of
           Inl e \<Rightarrow> Inl e
         | Inr span \<Rightarrow> Inr (ctx, span, Some (Span_SpanContext span))))"

text \<open>
  The routing context, as far as it is read: the request header, a map from names to
  values; \<open>Peek\<close> gives the empty value for a name that is not there.
\<close>

record routing_Context =
  Request_Header :: "string \<rightharpoonup> string"

definition Peek :: "(string \<rightharpoonup> string) \<Rightarrow> string \<Rightarrow> string" where
  "Peek h key = (case h key of None \<Rightarrow> [] | Some v \<Rightarrow> v)"

definition TraceSpanFromRoutingContext ::
    "id_source \<Rightarrow> ('t, 'v) printers \<Rightarrow> routing_Context option \<Rightarrow> ('t, 'v) Event list option \<Rightarrow>
     string \<Rightarrow> bool \<Rightarrow> bool \<Rightarrow> panic + (Context \<times> Span option \<times> SpanContext option)" where
  "TraceSpanFromRoutingContext ids fm c events operation includeEvent includeEventBody =
     (case (case c of
              None \<Rightarrow> Inr (StartSpan ids Background operation)
            | Some rc \<Rightarrow>
                (let corID = Peek (Request_Header rc) CorrelationID in
                 if corID \<noteq> []
                 then (case DeserializeSpanContext corID of
                         Inl e \<Rightarrow> Inl e
                       | Inr spanContext \<Rightarrow>
                           Inr (StartSpanWithRemoteParent ids Background operation spanContext))
                 else Inr (StartSpan ids Background operation))) of
        Inl e \<Rightarrow> Inl e
      | Inr (ctx, span) \<Rightarrow>
          (case (if includeEvent then AddEventAnnotations fm events span includeEventBody
                 else Inr span) of
             Inl e \<Rightarrow> Inl e
           | Inr span \<Rightarrow>
               (if span \<noteq> None then Inr (ctx, span, Some (Span_SpanContext span))
                else Inr (ctx, span, None))))"

definition SetSpanStatus :: "Span option \<Rightarrow> int \<Rightarrow> string \<Rightarrow> Span option" where
  "SetSpanStatus span code message =
     (if span \<noteq> None then SetStatus span code message else span)"

section \<open>Notions the statements use\<close>

text \<open>
  A decimal numeral, read independently of \<open>ParseUint\<close>: every character is one of
  \<open>'0'..'9'\<close>, and the value is the one of the digits in base 10.
\<close>

definition is_digit :: "char \<Rightarrow> bool" where
  "is_digit c = (48 \<le> (of_char c :: nat) \<and> (of_char c :: nat) \<le> 57)"

definition decimal_value :: "string \<Rightarrow> nat" where
  "decimal_value s = foldl (\<lambda>n c. n * 10 + (of_char c - 48)) 0 s"

text \<open>The key of an attribute, and the attributes a call on a span carries.\<close>

fun attr_key :: "Attribute \<Rightarrow> string" where
  "attr_key (StringAttribute k v) = k"

fun call_attrs :: "span_call \<Rightarrow> Attribute list" where
  "call_attrs (AnnotateCall attrs str) = attrs"
| "call_attrs (AddAttributesCall attrs) = attrs"
| "call_attrs (SetStatusCall code message) = []"

text \<open>
  A runtime and printers to run the helpers on concrete inputs: the runtime gives a new
  root the identity \<open>fresh\<close>, and a child the trace of its parent with the span id of
  \<open>fresh\<close>; a time is a number of seconds, printed in decimal, and a payload is a
  string, printed as it is.
\<close>

definition sample_ids :: "SpanContext \<Rightarrow> id_source" where
  "sample_ids fresh name p =
     (case p of
        NoParent \<Rightarrow> fresh
      | LocalParent sc \<Rightarrow> sc\<lparr>SpanID := SpanID fresh\<rparr>
      | RemoteParent sc \<Rightarrow> sc\<lparr>SpanID := SpanID fresh\<rparr>)"

definition sample_fresh :: SpanContext where
  "sample_fresh =
     \<lparr>SpanID = [1, 1, 1, 1, 1, 1, 1, 1], TraceID = replicate 16 2, TraceOptions = 1\<rparr>"

definition sample_printers :: "(nat, string) printers" where
  "sample_printers = \<lparr>Time_String = (\<lambda>t. fmtInteger t []), Sprint = (\<lambda>v. v)\<rparr>"

text \<open>
  The calls one event is to produce, in the words of the specification (section 4.3):
  one annotation tagged \<open>message\<close> with the four attributes, then one add-attributes
  call with the same attributes and, if the body is included, \<open>data\<close> as the fifth.
\<close>

definition expected_event_calls ::
    "('t, 'v) printers \<Rightarrow> bool \<Rightarrow> ('t, 'v) Event \<Rightarrow> span_call list" where
  "expected_event_calls fm includeEventBody e =
     [AnnotateCall (event_attrs fm e) ''message'',
      AddAttributesCall
        (event_attrs fm e @
         (if includeEventBody then [StringAttribute ''data'' (Sprintf_v fm (Data e))] else []))]"

text \<open>A span without calls and two events, to run the helpers on.\<close>

definition sample_span :: Span where
  "sample_span = \<lparr>Name = ''op'', Parent = NoParent, own_context = sample_fresh, Calls = []\<rparr>"

definition sample_event1 :: "(nat, string) Event" where
  "sample_event1 =
     \<lparr>EventName = ''created'', To = [], Concurrency = ''parallel'', CreatedAt = 7,
      State = [], Data = None\<rparr>"

definition sample_event2 :: "(nat, string) Event" where
  "sample_event2 =
     \<lparr>EventName = ''sent'', To = [''a'', ''b''], Concurrency = ''single'', CreatedAt = 12,
      State = [], Data = Some ''body''\<rparr>"

section \<open>Hexadecimal digits\<close>

lemma hextable_nth_cases:
  assumes "n < 16"
  shows "n \<in> {0,1,2,3,4,5,6,7,8,9,10,11,12,13,14,15::nat}"
  using assms by simp arith

lemma fromHexChar_hextable:
  assumes "n < 16"
  shows "fromHexChar (hextable ! n) = Some (of_nat n)"
proof -
  have "\<forall>k \<in> {0,1,2,3,4,5,6,7,8,9,10,11,12,13,14,15::nat}. fromHexChar (hextable ! k) = Some (of_nat k)"
    by (simp add: hextable_def fromHexChar_def)
  then show ?thesis using hextable_nth_cases [OF assms] by blast
qed

lemma hi_nibble_less: "unat (drop_bit 4 (v :: byte)) < 16"
proof -
  have "unat (drop_bit 4 v) = unat v div 2 ^ 4"
    by (simp add: drop_bit_eq_div unat_div)
  moreover have "unat v < 256" using unsigned_less [of v] by simp
  ultimately show ?thesis by simp
qed

lemma lo_nibble_less: "unat ((v :: byte) AND 15) < 16"
proof -
  have "unat (v AND 15) \<le> unat (15 :: byte)"
    by (rule word_and_le1 [THEN word_le_nat_alt [THEN iffD1]])
  then show ?thesis by simp
qed

lemma nibbles_join: "push_bit 4 (drop_bit 4 v) OR (v AND 15) = (v :: byte)"
proof -
  have "v AND 15 = take_bit 4 v"
    using take_bit_eq_mask [of 4 v] by (simp add: mask_eq_exp_minus_1)
  then show ?thesis
    by (simp add: bit_eq_iff bit_simps) (auto simp: bit_simps)
qed

lemma DecodeString_ID_String: "DecodeString (ID_String bs) = (bs, None)"
proof (induction bs)
  case Nil
  show ?case by (simp add: ID_String_def)
next
  case (Cons v bs)
  have step: "ID_String (v # bs) =
      hextable ! unat (drop_bit 4 v) # hextable ! unat (v AND 15) # ID_String bs"
    by (simp add: ID_String_def)
  have hi: "fromHexChar (hextable ! unat (drop_bit 4 v)) = Some (drop_bit 4 v)"
    using fromHexChar_hextable [OF hi_nibble_less, of v] by simp
  have lo: "fromHexChar (hextable ! unat (v AND 15)) = Some (v AND 15)"
    using fromHexChar_hextable [OF lo_nibble_less, of v] by simp
  show ?case
    by (simp only: step DecodeString.simps hi lo Cons.IH option.case prod.case nibbles_join)
qed

lemma set_ID_String: "set (ID_String bs) \<subseteq> set hextable"
proof (induction bs)
  case Nil
  show ?case by (simp add: ID_String_def)
next
  case (Cons v bs)
  have "length hextable = 16" by (simp add: hextable_def)
  then have "hextable ! unat (drop_bit 4 v) \<in> set hextable"
    and "hextable ! unat (v AND 15) \<in> set hextable"
    using hi_nibble_less [of v] lo_nibble_less [of v] by simp_all
  with Cons.IH show ?case by (simp add: ID_String_def)
qed

lemma sep_notin_ID_String: "CHR '';'' \<notin> set (ID_String bs)"
proof -
  have "CHR '';'' \<notin> set hextable" by (simp add: hextable_def)
  then show ?thesis using set_ID_String [of bs] by blast
qed

lemma DecodeString_prefix:
  "DecodeString (take (2 * length (fst (DecodeString s))) s) = (fst (DecodeString s), None)"
  by (induction s rule: DecodeString.induct) (auto split: option.splits prod.splits)

lemma DecodeString_length:
  "DecodeString s = (bs, None) \<Longrightarrow> length s = 2 * length bs"
  by (induction s arbitrary: bs rule: DecodeString.induct) (auto split: option.splits prod.splits)

lemma DecodeString_take:
  "DecodeString s = (bs, None) \<Longrightarrow> DecodeString (take (2 * k) s) = (take k bs, None)"
proof (induction s arbitrary: bs k rule: DecodeString.induct)
  case (1 p q rest)
  show ?case
  proof (cases k)
    case 0
    then show ?thesis by simp
  next
    case (Suc j)
    from "1.prems" obtain a b bs' where
      a: "fromHexChar p = Some a" and b: "fromHexChar q = Some b"
      and r: "DecodeString rest = (bs', None)" and bs: "bs = (push_bit 4 a OR b) # bs'"
      by (auto split: option.splits prod.splits)
    have "DecodeString (take (2 * j) rest) = (take j bs', None)"
      using "1.IH" [OF a b r] .
    then show ?thesis using Suc a b bs by simp
  qed
next
  case (2 p)
  then show ?case by (simp split: option.splits)
next
  case 3
  then show ?case by simp
qed

lemma DecodeString_next_pair_fails:
  "snd (DecodeString s) \<noteq> None \<Longrightarrow>
     snd (DecodeString (take (2 * length (fst (DecodeString s)) + 2) s)) \<noteq> None"
  by (induction s rule: DecodeString.induct) (auto split: option.splits prod.splits)

lemma DecodeString_longer_prefix_fails:
  assumes "snd (DecodeString s) \<noteq> None" and "length (fst (DecodeString s)) < k"
  shows "snd (DecodeString (take (2 * k) s)) \<noteq> None"
proof
  assume "snd (DecodeString (take (2 * k) s)) = None"
  then obtain bs where d: "DecodeString (take (2 * k) s) = (bs, None)"
    by (cases "DecodeString (take (2 * k) s)") simp
  let ?n = "length (fst (DecodeString s))"
  have "DecodeString (take (2 * (?n + 1)) (take (2 * k) s)) = (take (?n + 1) bs, None)"
    by (rule DecodeString_take [OF d])
  moreover have "take (2 * (?n + 1)) (take (2 * k) s) = take (2 * ?n + 2) s"
    using assms(2) by (simp add: min_def)
  ultimately have "snd (DecodeString (take (2 * ?n + 2) s)) = None" by simp
  with DecodeString_next_pair_fails [OF assms(1)] show False by simp
qed

section \<open>Decimal numerals\<close>

lemma fmtInteger_buf: "fmtInteger u buf = fmtInteger u [] @ buf"
proof (induction u arbitrary: buf rule: less_induct)
  case (less u)
  show ?case
  proof (cases "10 \<le> u")
    case True
    then have lt: "u div 10 < u" by simp
    have "fmtInteger u buf = fmtInteger (u div 10) (char_of (48 + u mod 10) # buf)"
      using True by (subst fmtInteger.simps) simp
    also have "\<dots> = fmtInteger (u div 10) [] @ char_of (48 + u mod 10) # buf"
      by (rule less.IH [OF lt])
    also have "\<dots> = fmtInteger (u div 10) [char_of (48 + u mod 10)] @ buf"
      using less.IH [OF lt, of "[char_of (48 + u mod 10)]"] by simp
    also have "\<dots> = fmtInteger u [] @ buf"
      using True by (subst (2) fmtInteger.simps) simp
    finally show ?thesis .
  next
    case False
    then show ?thesis by (simp add: fmtInteger.simps)
  qed
qed

lemma fmtInteger_small: "u < 10 \<Longrightarrow> fmtInteger u [] = [char_of (48 + u)]"
  by (simp add: fmtInteger.simps)

lemma fmtInteger_large:
  "10 \<le> u \<Longrightarrow> fmtInteger u [] = fmtInteger (u div 10) [] @ [char_of (48 + u mod 10)]"
  using fmtInteger_buf [of "u div 10" "[char_of (48 + u mod 10)]"]
  by (subst fmtInteger.simps) simp

lemma of_char_digit: "d < 10 \<Longrightarrow> (of_char (char_of (48 + d :: nat)) :: nat) = 48 + d"
  by simp

lemma is_digit_char_of: "d < 10 \<Longrightarrow> is_digit (char_of (48 + d :: nat))"
  by (simp add: is_digit_def of_char_digit)

lemma digit_val_is_digit: "is_digit c \<Longrightarrow> digit_val c = Some (of_char c - 48)"
  by (simp add: is_digit_def digit_val_def)

lemma fmtInteger_digits: "list_all is_digit (fmtInteger u [])"
proof (induction u rule: less_induct)
  case (less u)
  show ?case
  proof (cases "10 \<le> u")
    case True
    then have "u div 10 < u" by simp
    from less.IH [OF this] show ?thesis
      using True by (simp add: fmtInteger_large is_digit_char_of)
  next
    case False
    then show ?thesis by (simp add: fmtInteger_small is_digit_char_of)
  qed
qed

lemma fmtInteger_not_Nil: "fmtInteger u [] \<noteq> []"
  by (cases "10 \<le> u") (simp_all add: fmtInteger_large fmtInteger_small)

lemma sep_not_digit: "\<not> is_digit CHR '';''"
  by (simp add: is_digit_def)

lemma sep_notin_fmtInteger: "CHR '';'' \<notin> set (fmtInteger u [])"
  using fmtInteger_digits [of u] sep_not_digit by (auto simp: list_all_iff)

lemma foldl_dec_mono: "n \<le> foldl (\<lambda>n c. n * 10 + (of_char c - 48)) (n :: nat) s"
proof (induction s arbitrary: n)
  case Nil
  show ?case by simp
next
  case (Cons c s)
  have "n \<le> n * 10 + (of_char c - 48)" by simp
  also have "\<dots> \<le> foldl (\<lambda>n c. n * 10 + (of_char c - 48)) (n * 10 + (of_char c - 48)) s"
    by (rule Cons.IH)
  finally show ?case by simp
qed

lemma ParseUint_loop_digits:
  assumes "list_all is_digit s" and "n \<le> 2 ^ 32 - 1"
  shows "ParseUint_loop 10 (maxUint64 div 10 + 1) (2 ^ 32 - 1) n s =
    (if foldl (\<lambda>n c. n * 10 + (of_char c - 48)) n s \<le> 2 ^ 32 - 1
     then (foldl (\<lambda>n c. n * 10 + (of_char c - 48)) n s, None)
     else (2 ^ 32 - 1, Some ErrRange))"
  using assms
proof (induction s arbitrary: n)
  case Nil
  then show ?case by simp
next
  case (Cons c s)
  define d where "d = (of_char c :: nat) - 48"
  have dv: "digit_val c = Some d" and d10: "d < 10"
    using Cons.prems(1) by (auto simp: digit_val_is_digit d_def is_digit_def)
  have n: "n < 4294967296" using Cons.prems(2) by simp
  have cut: "\<not> maxUint64 div 10 + 1 \<le> n" using n by (simp add: maxUint64_def)
  have nowrap: "(n * 10 + d) mod 2 ^ 64 = n * 10 + d" using n d10 by simp
  show ?case
  proof (cases "n * 10 + d \<le> 2 ^ 32 - 1")
    case True
    have "ParseUint_loop 10 (maxUint64 div 10 + 1) (2 ^ 32 - 1) n (c # s) =
        ParseUint_loop 10 (maxUint64 div 10 + 1) (2 ^ 32 - 1) (n * 10 + d) s"
      using True d10 cut nowrap dv by (simp add: Let_def)
    also have "\<dots> = (if foldl (\<lambda>n c. n * 10 + (of_char c - 48)) (n * 10 + d) s \<le> 2 ^ 32 - 1
       then (foldl (\<lambda>n c. n * 10 + (of_char c - 48)) (n * 10 + d) s, None)
       else (2 ^ 32 - 1, Some ErrRange))"
      using Cons.prems(1) True by (intro Cons.IH) simp_all
    finally show ?thesis by (simp add: d_def)
  next
    case False
    have "ParseUint_loop 10 (maxUint64 div 10 + 1) (2 ^ 32 - 1) n (c # s) = (2 ^ 32 - 1, Some ErrRange)"
      using False d10 cut nowrap dv by (simp add: Let_def)
    moreover have "\<not> foldl (\<lambda>n c. n * 10 + (of_char c - 48)) (n * 10 + d) s \<le> 2 ^ 32 - 1"
      using False foldl_dec_mono [of "n * 10 + d" s] by simp
    ultimately show ?thesis by (simp add: d_def)
  qed
qed

lemma decimal_value_fmtInteger: "decimal_value (fmtInteger u []) = u"
proof (induction u rule: less_induct)
  case (less u)
  show ?case
  proof (cases "10 \<le> u")
    case True
    then have "u div 10 < u" by simp
    from less.IH [OF this] show ?thesis
      using True by (simp add: fmtInteger_large decimal_value_def of_char_digit)
  next
    case False
    then show ?thesis by (simp add: fmtInteger_small decimal_value_def of_char_digit)
  qed
qed

lemma ParseUint_digits:
  assumes "s \<noteq> []" and "list_all is_digit s"
  shows "ParseUint s 10 32 =
    (if decimal_value s \<le> 2 ^ 32 - 1 then (decimal_value s, None) else (2 ^ 32 - 1, Some ErrRange))"
  using assms ParseUint_loop_digits [of s 0]
  by (simp add: ParseUint_def decimal_value_def)

lemma ParseUint_fmtInteger:
  assumes "u < 2 ^ 32"
  shows "ParseUint (fmtInteger u []) 10 32 = (u, None)"
  using assms ParseUint_digits [OF fmtInteger_not_Nil fmtInteger_digits, of u]
  by (simp add: decimal_value_fmtInteger)

lemma ParseUint_loop_error_value:
  "ParseUint_loop base cutoff maxVal n s = (v, Some e) \<Longrightarrow>
     v = (case e of ErrSyntax \<Rightarrow> 0 | ErrRange \<Rightarrow> maxVal)"
  by (induction s arbitrary: n) (auto simp: Let_def split: option.splits if_splits)

lemma ParseUint_error_value:
  "ParseUint s base bitSize = (v, Some e) \<Longrightarrow>
     v = (case e of ErrSyntax \<Rightarrow> 0 | ErrRange \<Rightarrow> 2 ^ bitSize - 1)"
  using ParseUint_loop_error_value [of base "maxUint64 div base + 1" "2 ^ bitSize - 1" 0 s v e]
  by (auto simp: ParseUint_def split: if_splits)

section \<open>Splitting a token\<close>

lemma Split_no_sep:
  assumes "sep \<notin> set s"
  shows "Split s sep = [s]"
proof -
  have d: "dropWhile (\<lambda>c. c \<noteq> sep) s = []"
    using assms by auto
  show ?thesis by (subst Split.simps) (simp add: d)
qed

lemma Split_field:
  assumes "sep \<notin> set a"
  shows "Split (a @ sep # b) sep = a # Split b sep"
proof -
  have d: "dropWhile (\<lambda>c. c \<noteq> sep) (a @ sep # b) = sep # b"
    using assms by (auto simp: dropWhile_append3)
  have t: "takeWhile (\<lambda>c. c \<noteq> sep) (a @ sep # b) = a"
    using assms by (auto simp: takeWhile_tail)
  show ?thesis
    by (subst Split.simps) (simp add: d t)
qed

lemma Split_not_Nil: "Split s sep \<noteq> []"
  by (subst Split.simps) (simp split: list.splits)

lemma Split_fields_no_sep: "f \<in> set (Split s sep) \<Longrightarrow> sep \<notin> set f"
proof (induction s sep arbitrary: f rule: Split.induct)
  case (1 s sep)
  show ?case
  proof (cases "dropWhile (\<lambda>c. c \<noteq> sep) s")
    case Nil
    then have "Split s sep = [s]" by (subst Split.simps) (simp only: list.case)
    moreover from Nil have "sep \<notin> set s" by auto
    ultimately show ?thesis using "1.prems" by simp
  next
    case (Cons x rest)
    then have sp: "Split s sep = takeWhile (\<lambda>c. c \<noteq> sep) s # Split rest sep"
      by (subst Split.simps) (simp only: list.case)
    have "sep \<notin> set (takeWhile (\<lambda>c. c \<noteq> sep) s)"
      using set_takeWhileD [of sep "\<lambda>c. c \<noteq> sep" s] by blast
    then show ?thesis using "1.prems" "1.IH" [OF Cons] sp by auto
  qed
qed

lemma Split_three:
  assumes "sep \<notin> set a" and "sep \<notin> set b" and "sep \<notin> set c"
  shows "Split (a @ sep # b @ sep # c) sep = [a, b, c]"
  using Split_field [OF assms(1), of "b @ sep # c"] Split_field [OF assms(2), of c]
    Split_no_sep [OF assms(3)]
  by simp

lemma three_fields:
  assumes "3 \<le> length xs"
  obtains a b c r where "xs = a # b # c # r"
proof -
  from assms obtain a xs1 where 1: "xs = a # xs1" by (cases xs) auto
  with assms obtain b xs2 where 2: "xs1 = b # xs2" by (cases xs1) auto
  with 1 assms obtain c r where 3: "xs2 = c # r" by (cases xs2) auto
  from 1 2 3 that show thesis by simp
qed

section \<open>Decoding by fields\<close>

lemma copy_full:
  assumes "length src = length dst"
  shows "copy dst src = src"
  using assms by (simp add: copy_def)

lemma copy_zero_pad: "copy (replicate n z) bs = take n (bs @ replicate n z)"
  by (simp add: copy_def min_def)

lemma Split_Serialize:
  "Split (SerializeSpanContext x) CHR '';'' =
     [ID_String (SpanID x), ID_String (TraceID x), fmtInteger (unat (TraceOptions x)) []]"
proof -
  have "Split (SerializeSpanContext x) CHR '';'' =
      ID_String (SpanID x) #
      Split (ID_String (TraceID x) @ CHR '';'' # fmtInteger (unat (TraceOptions x)) []) CHR '';''"
    unfolding SerializeSpanContext_def
    using Split_field [OF sep_notin_ID_String, of "SpanID x"] by simp
  also have "Split (ID_String (TraceID x) @ CHR '';'' # fmtInteger (unat (TraceOptions x)) []) CHR '';'' =
      ID_String (TraceID x) # Split (fmtInteger (unat (TraceOptions x)) []) CHR '';''"
    by (rule Split_field [OF sep_notin_ID_String])
  also have "Split (fmtInteger (unat (TraceOptions x)) []) CHR '';'' =
      [fmtInteger (unat (TraceOptions x)) []]"
    by (rule Split_no_sep [OF sep_notin_fmtInteger])
  finally show ?thesis .
qed

lemma Deserialize_fields:
  assumes "Split ctx CHR '';'' = f0 # f1 # f2 # rest"
  shows "DeserializeSpanContext ctx =
     Inr \<lparr>SpanID = copy (replicate 8 0) (fst (DecodeString f0)),
          TraceID = copy (replicate 16 0) (fst (DecodeString f1)),
          TraceOptions = of_nat (fst (ParseUint f2 10 32))\<rparr>"
  using assms
  by (simp add: DeserializeSpanContext_def index_def Let_def split: prod.splits)

lemma Deserialize_Serialize:
  assumes "length (SpanID x) = 8" and "length (TraceID x) = 16"
  shows "DeserializeSpanContext (SerializeSpanContext x) = Inr x"
proof -
  have u: "unat (TraceOptions x) < 2 ^ 32"
    using unsigned_less [of "TraceOptions x"] by simp
  have "DeserializeSpanContext (SerializeSpanContext x) =
      Inr \<lparr>SpanID = copy (replicate 8 0) (SpanID x),
           TraceID = copy (replicate 16 0) (TraceID x),
           TraceOptions = of_nat (unat (TraceOptions x))\<rparr>"
    using Deserialize_fields [OF Split_Serialize, of x]
    by (simp add: DecodeString_ID_String ParseUint_fmtInteger [OF u])
  also have "\<dots> = Inr x"
    using assms by (simp add: copy_full)
  finally show ?thesis .
qed

section \<open>Calls on a span\<close>

lemma annotate_event_Some:
  "annotate_event fm e (Some sp) b =
     Some (sp\<lparr>Calls := Calls sp @ expected_event_calls fm b e\<rparr>)"
  by (simp add: annotate_event_def Annotate_def AddAttributes_def expected_event_calls_def Let_def)

lemma annotate_events_Some:
  "annotate_events fm es (Some sp) b =
     Some (sp\<lparr>Calls := Calls sp @ concat (map (expected_event_calls fm b) es)\<rparr>)"
  by (induction es arbitrary: sp) (simp_all add: annotate_event_Some)

lemma annotate_events_nil: "annotate_events fm es None b = None"
  by (induction es) (simp_all add: annotate_event_def Annotate_def AddAttributes_def)

lemma event_attrs_keys:
  "map attr_key (event_attrs fm e) = [''eventName'', ''createdAt'', ''concurrency'', ''to'']"
  by (simp add: event_attrs_def)

lemma TraceSpanFromCorrelationId_decoded:
  assumes "corID \<noteq> []" and "DeserializeSpanContext corID = Inr I"
  shows "\<exists>ctx sp. TraceSpanFromCorrelationId ids corID operation actionMethod targetID from verbMethod =
        Inr (ctx, Some sp) \<and> Parent sp = RemoteParent I"
  using assms
  by (simp add: TraceSpanFromCorrelationId_def StartSpanWithRemoteParent_def
        Annotate_def AddAttributes_def Let_def)

lemma Serialize_not_Nil: "SerializeSpanContext x \<noteq> []"
  by (simp add: SerializeSpanContext_def)

section \<open>Concrete tokens and events\<close>

lemma Serialize_example: "SerializeSpanContext
        \<lparr>SpanID = [1, 35, 69, 103, 137, 171, 205, 239],
           TraceID = [0, 17, 34, 51, 68, 85, 102, 119, 136, 153, 170, 187, 204, 221, 238, 255],
           TraceOptions = 1\<rparr> =
     ''0123456789abcdef;00112233445566778899aabbccddeeff;1''"
  by code_simp

lemma split_abc_def: "Split ''abc;def'' CHR '';'' = [''abc'', ''def'']"
  by (simp add: Split.simps)

lemma Split_example1:
  "Split ''0a0bzz;ffz;12x'' CHR '';'' = [''0a0bzz'', ''ffz'', ''12x'']"
  by code_simp

lemma Split_example5:
  "Split ''0a;0b0;99999999999'' CHR '';'' = [''0a'', ''0b0'', ''99999999999'']"
  by code_simp

lemma Split_example2:
  "Split ''0123456789abcdef;00112233445566778899aabbccddeeff;4294967296'' CHR '';'' =
     [''0123456789abcdef'', ''00112233445566778899aabbccddeeff'', ''4294967296'']"
  by code_simp

lemma Split_example3:
  "Split ''0102030405060708090a;000102030405060708090a0b0c0d0e0f10;1'' CHR '';'' =
     [''0102030405060708090a'', ''000102030405060708090a0b0c0d0e0f10'', ''1'']"
  by code_simp

lemma Split_example4:
  "Split ''0123456789abcdef;00112233445566778899aabbccddeeff;1'' CHR '';'' =
     [''0123456789abcdef'', ''00112233445566778899aabbccddeeff'', ''1'']"
  by code_simp

lemma sample_attrs1:
  "event_attrs sample_printers sample_event1 =
     [StringAttribute ''eventName'' ''created'', StringAttribute ''createdAt'' ''7'',
      StringAttribute ''concurrency'' ''parallel'', StringAttribute ''to'' '''']"
  by code_simp

lemma sample_attrs2:
  "event_attrs sample_printers sample_event2 =
     [StringAttribute ''eventName'' ''sent'', StringAttribute ''createdAt'' ''12'',
      StringAttribute ''concurrency'' ''single'', StringAttribute ''to'' ''a,b'']"
  by code_simp

lemma sample_data:
  "Sprintf_v sample_printers (Data sample_event1) = ''<nil>''"
  "Sprintf_v sample_printers (Data sample_event2) = ''body''"
  by code_simp+

section \<open>The claims\<close>

subsection \<open>C1: round trip\<close>

text \<open>
  Claim C1.  For every span context whose span id has 8 bytes and whose trace id has
  16 bytes (the trace options are a 32-bit value by their type), decoding the encoding
  gives the span context back, in all three fields.
\<close>

theorem roundtrip:
  assumes "length (SpanID x) = 8" and "length (TraceID x) = 16"
  shows "DeserializeSpanContext (SerializeSpanContext x) = Inr x"
  using assms by (rule Deserialize_Serialize)

text \<open>
  The identity of the specification's example token.
\<close>

theorem roundtrip_witness:
  "SerializeSpanContext
        \<lparr>SpanID = [1, 35, 69, 103, 137, 171, 205, 239],
           TraceID = [0, 17, 34, 51, 68, 85, 102, 119, 136, 153, 170, 187, 204, 221, 238, 255],
           TraceOptions = 1\<rparr> =
     ''0123456789abcdef;00112233445566778899aabbccddeeff;1'' \<and>
   DeserializeSpanContext ''0123456789abcdef;00112233445566778899aabbccddeeff;1'' =
     Inr \<lparr>SpanID = [1, 35, 69, 103, 137, 171, 205, 239],
           TraceID = [0, 17, 34, 51, 68, 85, 102, 119, 136, 153, 170, 187, 204, 221, 238, 255],
           TraceOptions = 1\<rparr>"
  using roundtrip [of "\<lparr>SpanID = [1, 35, 69, 103, 137, 171, 205, 239],
           TraceID = [0, 17, 34, 51, 68, 85, 102, 119, 136, 153, 170, 187, 204, 221, 238, 255],
           TraceOptions = 1\<rparr>"] Serialize_example
  by simp

subsection \<open>C2: fewer than three fields\<close>

text \<open>
  Claim C2.  A token that splits on \<open>;\<close> into fewer than three fields makes
  \<open>DeserializeSpanContext\<close> panic with an index out of range: no check of the number
  of fields stands before \<open>parts[1]\<close> and \<open>parts[2]\<close>.  The index that fails is the
  number of fields.
\<close>

theorem too_few_fields_panics:
  assumes "length (Split ctx CHR '';'') < 3"
  shows "DeserializeSpanContext ctx =
     Inl (IndexOutOfRange (length (Split ctx CHR '';'')) (length (Split ctx CHR '';'')))"
proof -
  obtain p ps where ps: "Split ctx CHR '';'' = p # ps"
    using Split_not_Nil [of ctx "CHR '';''"] by (cases "Split ctx CHR '';''") auto
  show ?thesis
  proof (cases ps)
    case Nil
    then show ?thesis using ps
      by (simp add: DeserializeSpanContext_def index_def Let_def split: prod.splits)
  next
    case (Cons q qs)
    then have "qs = []" using assms ps by simp
    then show ?thesis using ps Cons
      by (simp add: DeserializeSpanContext_def index_def Let_def split: prod.splits)
  qed
qed

lemma split_abc: "Split ''abc'' CHR '';'' = [''abc'']"
  by code_simp

theorem too_few_fields_panics_witness:
  "length (Split ''abc;def'' CHR '';'') < 3 \<and>
   DeserializeSpanContext ''abc;def'' = Inl (IndexOutOfRange 2 2) \<and>
   length (Split ''abc'' CHR '';'') < 3 \<and>
   DeserializeSpanContext ''abc'' = Inl (IndexOutOfRange 1 1)"
  using too_few_fields_panics [of "''abc;def''"] too_few_fields_panics [of "''abc''"]
  by (simp add: split_abc_def split_abc)

subsection \<open>C3: errors of the three fields\<close>

text \<open>
  Claim C3 says that a field which fails to decode leaves its part of the identity at
  zero.  It does not: \<open>hex.DecodeString\<close> returns the bytes decoded before the error,
  and \<open>copy\<close> stores them; \<open>ParseUint\<close> returns the largest 32-bit value on a range
  error.  In the token below field 0 fails at \<open>z\<close> and field 2 is out of range, and
  neither the span id nor the trace options are zero.
\<close>

theorem zero_on_failure_counterexample:
  "Split ''01zz;00;4294967296'' CHR '';'' = [''01zz'', ''00'', ''4294967296''] \<and>
   snd (DecodeString ''01zz'') = Some (InvalidByteError CHR ''z'') \<and>
   snd (ParseUint ''4294967296'' 10 32) = Some ErrRange \<and>
   DeserializeSpanContext ''01zz;00;4294967296'' =
     Inr \<lparr>SpanID = [1, 0, 0, 0, 0, 0, 0, 0], TraceID = replicate 16 0,
          TraceOptions = 4294967295\<rparr> \<and>
   [1, 0, 0, 0, 0, 0, 0, 0] \<noteq> replicate 8 (0 :: byte) \<and>
   (4294967295 :: 32 word) \<noteq> 0"
  by code_simp

text \<open>
  Claim C3, as the code has it.  For every token with at least three fields,
  \<open>DeserializeSpanContext\<close> returns an identity and no error, and each part of the
  identity depends on its own field only.  The span id is the bytes that
  \<open>hex.DecodeString\<close> returns for field 0, cut or filled with zeros to 8 bytes.  These
  bytes are the ones decoded before the failing position: the prefix of field 0 of that
  many pairs of characters decodes to them without an error, and when field 0 fails,
  every prefix of more pairs fails as well.  The same holds for the trace id, field 1
  and 16 bytes.  The trace options are the value \<open>ParseUint\<close> returns for field 2: zero
  on a syntax error, \<open>2^32 - 1\<close> on a range error.
\<close>

theorem decode_best_effort:
  assumes "Split ctx CHR '';'' = f0 # f1 # f2 # rest"
  shows "\<exists>r. DeserializeSpanContext ctx = Inr r \<and>
     SpanID r = take 8 (fst (DecodeString f0) @ replicate 8 0) \<and>
     DecodeString (take (2 * length (fst (DecodeString f0))) f0) = (fst (DecodeString f0), None) \<and>
     (snd (DecodeString f0) \<noteq> None \<longrightarrow>
        (\<forall>k. length (fst (DecodeString f0)) < k \<longrightarrow>
           snd (DecodeString (take (2 * k) f0)) \<noteq> None)) \<and>
     TraceID r = take 16 (fst (DecodeString f1) @ replicate 16 0) \<and>
     DecodeString (take (2 * length (fst (DecodeString f1))) f1) = (fst (DecodeString f1), None) \<and>
     (snd (DecodeString f1) \<noteq> None \<longrightarrow>
        (\<forall>k. length (fst (DecodeString f1)) < k \<longrightarrow>
           snd (DecodeString (take (2 * k) f1)) \<noteq> None)) \<and>
     TraceOptions r = of_nat (fst (ParseUint f2 10 32)) \<and>
     (snd (ParseUint f2 10 32) = Some ErrSyntax \<longrightarrow> TraceOptions r = 0) \<and>
     (snd (ParseUint f2 10 32) = Some ErrRange \<longrightarrow> TraceOptions r = 4294967295)"
proof -
  have syn: "snd (ParseUint f2 10 32) = Some ErrSyntax \<Longrightarrow> fst (ParseUint f2 10 32) = 0"
    using ParseUint_error_value [of f2 10 32 "fst (ParseUint f2 10 32)" ErrSyntax]
    by (cases "ParseUint f2 10 32") simp
  have rng: "snd (ParseUint f2 10 32) = Some ErrRange \<Longrightarrow> fst (ParseUint f2 10 32) = 4294967295"
    using ParseUint_error_value [of f2 10 32 "fst (ParseUint f2 10 32)" ErrRange]
    by (cases "ParseUint f2 10 32") simp
  have longest: "snd (DecodeString f) \<noteq> None \<longrightarrow>
        (\<forall>k. length (fst (DecodeString f)) < k \<longrightarrow>
           snd (DecodeString (take (2 * k) f)) \<noteq> None)" for f
    using DecodeString_longer_prefix_fails [of f] by blast
  show ?thesis
    using Deserialize_fields [OF assms] syn rng longest [of f0] longest [of f1]
    by (simp add: copy_zero_pad DecodeString_prefix)
qed

text \<open>
  Two tokens: in the first both identifiers fail at a character that is no hex digit and
  the trace options at a letter; in the second the trace id has an odd length and the
  trace options are out of range.
\<close>

theorem decode_best_effort_witness:
  "DecodeString ''0a0bzz'' = ([10, 11], Some (InvalidByteError CHR ''z'')) \<and>
   DecodeString ''ffz'' = ([255], Some (InvalidByteError CHR ''z'')) \<and>
   ParseUint ''12x'' 10 32 = (0, Some ErrSyntax) \<and>
   (\<exists>r. DeserializeSpanContext ''0a0bzz;ffz;12x'' = Inr r \<and>
        SpanID r = [10, 11, 0, 0, 0, 0, 0, 0] \<and>
        TraceID r = [255, 0, 0, 0, 0, 0, 0, 0, 0, 0, 0, 0, 0, 0, 0, 0] \<and>
        TraceOptions r = 0) \<and>
   DecodeString (take 4 ''0a0bzz'') = ([10, 11], None) \<and>
   snd (DecodeString (take 6 ''0a0bzz'')) \<noteq> None \<and>
   DecodeString (take 2 ''ffz'') = ([255], None) \<and>
   snd (DecodeString (take 4 ''ffz'')) \<noteq> None \<and>
   DecodeString ''0b0'' = ([11], Some ErrLength) \<and>
   ParseUint ''99999999999'' 10 32 = (4294967295, Some ErrRange) \<and>
   (\<exists>r. DeserializeSpanContext ''0a;0b0;99999999999'' = Inr r \<and>
        SpanID r = [10, 0, 0, 0, 0, 0, 0, 0] \<and>
        TraceID r = [11, 0, 0, 0, 0, 0, 0, 0, 0, 0, 0, 0, 0, 0, 0, 0] \<and>
        TraceOptions r = 4294967295)"
proof -
  have d0: "DecodeString ''0a0bzz'' = ([10, 11], Some (InvalidByteError CHR ''z''))"
    by code_simp
  have d1: "DecodeString ''ffz'' = ([255], Some (InvalidByteError CHR ''z''))"
    by code_simp
  have p: "ParseUint ''12x'' 10 32 = (0, Some ErrSyntax)"
    by code_simp
  have e0: "DecodeString ''0a'' = ([10], None)"
    by code_simp
  have e1: "DecodeString ''0b0'' = ([11], Some ErrLength)"
    by code_simp
  have q: "ParseUint ''99999999999'' 10 32 = (4294967295, Some ErrRange)"
    by code_simp
  have pad1: "take 8 ([10, 11] @ replicate 8 (0 :: byte)) = [10, 11, 0, 0, 0, 0, 0, 0]"
    by code_simp
  have pad2: "take 16 ([255] @ replicate 16 (0 :: byte)) =
      [255, 0, 0, 0, 0, 0, 0, 0, 0, 0, 0, 0, 0, 0, 0, 0]"
    by code_simp
  have pad3: "take 8 ([10] @ replicate 8 (0 :: byte)) = [10, 0, 0, 0, 0, 0, 0, 0]"
    by code_simp
  have pad4: "take 16 ([11] @ replicate 16 (0 :: byte)) =
      [11, 0, 0, 0, 0, 0, 0, 0, 0, 0, 0, 0, 0, 0, 0, 0]"
    by code_simp
  from decode_best_effort [OF Split_example1, unfolded d0 d1 p fst_conv snd_conv pad1 pad2]
  obtain r where
    r: "DeserializeSpanContext ''0a0bzz;ffz;12x'' = Inr r"
    and s: "SpanID r = [10, 11, 0, 0, 0, 0, 0, 0]"
    and s1: "DecodeString (take (2 * length [10, 11 :: byte]) ''0a0bzz'') = ([10, 11], None)"
    and s2: "Some (InvalidByteError CHR ''z'') \<noteq> None \<longrightarrow>
        (\<forall>k. length [10, 11 :: byte] < k \<longrightarrow>
           snd (DecodeString (take (2 * k) ''0a0bzz'')) \<noteq> None)"
    and t: "TraceID r = [255, 0, 0, 0, 0, 0, 0, 0, 0, 0, 0, 0, 0, 0, 0, 0]"
    and t1: "DecodeString (take (2 * length [255 :: byte]) ''ffz'') = ([255], None)"
    and t2: "Some (InvalidByteError CHR ''z'') \<noteq> None \<longrightarrow>
        (\<forall>k. length [255 :: byte] < k \<longrightarrow>
           snd (DecodeString (take (2 * k) ''ffz'')) \<noteq> None)"
    and o: "Some ErrSyntax = Some ErrSyntax \<longrightarrow> TraceOptions r = 0"
    by blast
  have A: "\<exists>r. DeserializeSpanContext ''0a0bzz;ffz;12x'' = Inr r \<and>
        SpanID r = [10, 11, 0, 0, 0, 0, 0, 0] \<and>
        TraceID r = [255, 0, 0, 0, 0, 0, 0, 0, 0, 0, 0, 0, 0, 0, 0, 0] \<and>
        TraceOptions r = 0"
    using r s t o by blast
  have A1: "DecodeString (take 4 ''0a0bzz'') = ([10, 11], None)"
    using s1 by simp
  have A2: "snd (DecodeString (take 6 ''0a0bzz'')) \<noteq> None"
    using s2 [rule_format, of 3] by simp
  have A3: "DecodeString (take 2 ''ffz'') = ([255], None)"
    using t1 by simp
  have A4: "snd (DecodeString (take 4 ''ffz'')) \<noteq> None"
    using t2 [rule_format, of 2] by simp
  from decode_best_effort [OF Split_example5, unfolded e0 e1 q fst_conv snd_conv pad3 pad4]
  obtain r' where
    r': "DeserializeSpanContext ''0a;0b0;99999999999'' = Inr r'"
    and s': "SpanID r' = [10, 0, 0, 0, 0, 0, 0, 0]"
    and t': "TraceID r' = [11, 0, 0, 0, 0, 0, 0, 0, 0, 0, 0, 0, 0, 0, 0, 0]"
    and o': "Some ErrRange = Some ErrRange \<longrightarrow> TraceOptions r' = 4294967295"
    by blast
  have B: "\<exists>r. DeserializeSpanContext ''0a;0b0;99999999999'' = Inr r \<and>
        SpanID r = [10, 0, 0, 0, 0, 0, 0, 0] \<and>
        TraceID r = [11, 0, 0, 0, 0, 0, 0, 0, 0, 0, 0, 0, 0, 0, 0, 0] \<and>
        TraceOptions r = 4294967295"
    using r' s' t' o' by blast
  show ?thesis
    using d0 d1 p A A1 A2 A3 A4 e1 q B by blast
qed

subsection \<open>C4: the remote parent\<close>

text \<open>
  Claim C4 says that \<open>TraceSpanFromCorrelationId\<close> returns a span for every input.
  A token that is not empty and has fewer than three fields makes the decoding panic,
  and no span is returned.
\<close>

theorem span_always_returned_counterexample:
  "TraceSpanFromCorrelationId (sample_ids sample_fresh) ''abc'' ''op'' ''m'' ''t'' ''f'' ''v'' =
     Inl (IndexOutOfRange 1 1)"
  by code_simp

text \<open>
  Claim C4, as the code has it.  For the token that encodes an identity \<open>I\<close> with an
  8-byte span id and a 16-byte trace id, the span is started with \<open>I\<close> as its remote
  parent.  For every token that is empty or has at least three fields, a span that is
  not \<open>nil\<close> is returned.
\<close>

theorem remote_parent:
  "(length (SpanID I) = 8 \<and> length (TraceID I) = 16 \<longrightarrow>
      (\<exists>ctx sp. TraceSpanFromCorrelationId ids (SerializeSpanContext I) operation actionMethod
                  targetID from verbMethod = Inr (ctx, Some sp) \<and>
               Parent sp = RemoteParent I)) \<and>
   (corID = [] \<or> 3 \<le> length (Split corID CHR '';'') \<longrightarrow>
      (\<exists>ctx sp. TraceSpanFromCorrelationId ids corID operation actionMethod
                  targetID from verbMethod = Inr (ctx, Some sp)))"
proof (intro conjI impI)
  assume "length (SpanID I) = 8 \<and> length (TraceID I) = 16"
  then have "DeserializeSpanContext (SerializeSpanContext I) = Inr I"
    by (simp add: Deserialize_Serialize)
  from TraceSpanFromCorrelationId_decoded [OF Serialize_not_Nil this]
  show "\<exists>ctx sp. TraceSpanFromCorrelationId ids (SerializeSpanContext I) operation actionMethod
                  targetID from verbMethod = Inr (ctx, Some sp) \<and>
               Parent sp = RemoteParent I" .
next
  assume h: "corID = [] \<or> 3 \<le> length (Split corID CHR '';'')"
  show "\<exists>ctx sp. TraceSpanFromCorrelationId ids corID operation actionMethod
                  targetID from verbMethod = Inr (ctx, Some sp)"
  proof (cases "corID = []")
    case True
    then show ?thesis
      by (simp add: TraceSpanFromCorrelationId_def StartSpan_def
        Background_def Annotate_def AddAttributes_def Let_def)
  next
    case False
    with h have "3 \<le> length (Split corID CHR '';'')" by simp
    then obtain f0 f1 f2 rest where "Split corID CHR '';'' = f0 # f1 # f2 # rest"
      by (rule three_fields)
    from Deserialize_fields [OF this] obtain I' where "DeserializeSpanContext corID = Inr I'"
      by blast
    from TraceSpanFromCorrelationId_decoded [OF False this] show ?thesis by blast
  qed
qed

theorem remote_parent_witness:
  "3 \<le> length (Split ''0123456789abcdef;00112233445566778899aabbccddeeff;1'' CHR '';'') \<and>
   (\<exists>ctx sp. TraceSpanFromCorrelationId (sample_ids sample_fresh)
        ''0123456789abcdef;00112233445566778899aabbccddeeff;1''
        ''op'' ''method'' ''target'' ''caller'' ''GET'' = Inr (ctx, Some sp) \<and>
      Parent sp =
        RemoteParent
          \<lparr>SpanID = [1, 35, 69, 103, 137, 171, 205, 239],
           TraceID = [0, 17, 34, 51, 68, 85, 102, 119, 136, 153, 170, 187, 204, 221, 238, 255],
           TraceOptions = 1\<rparr>)"
  using remote_parent [of "\<lparr>SpanID = [1, 35, 69, 103, 137, 171, 205, 239],
           TraceID = [0, 17, 34, 51, 68, 85, 102, 119, 136, 153, 170, 187, 204, 221, 238, 255],
           TraceOptions = 1\<rparr>" "sample_ids sample_fresh" "''op''" "''method''" "''target''"
           "''caller''" "''GET''" "''0123456789abcdef;00112233445566778899aabbccddeeff;1''"]
  by (simp add: Serialize_example Split_example4)

subsection \<open>C5: the absent token\<close>

text \<open>
  Claim C5.  \<open>DeserializeSpanContextPointer\<close> returns \<open>nil\<close> for the empty token,
  and does not decode it (decoding the empty token panics); \<open>TraceSpanFromCorrelationId\<close>
  starts a root span for the empty token, named by the operation, and returns it.
\<close>

theorem absent_token_root_span:
  "DeserializeSpanContextPointer [] = Inr None \<and>
   DeserializeSpanContext [] = Inl (IndexOutOfRange 1 1) \<and>
   (\<exists>ctx sp. TraceSpanFromCorrelationId ids [] operation actionMethod targetID from verbMethod =
        Inr (ctx, Some sp) \<and> Parent sp = NoParent \<and> Name sp = operation)"
proof -
  have "Split [] CHR '';'' = [[]]" by (simp add: Split.simps)
  then have "DeserializeSpanContext [] = Inl (IndexOutOfRange 1 1)"
    by (simp add: DeserializeSpanContext_def index_def Let_def split: prod.splits)
  then show ?thesis
    by (simp add: DeserializeSpanContextPointer_def TraceSpanFromCorrelationId_def StartSpan_def
        Background_def Annotate_def AddAttributes_def Let_def)
qed

theorem absent_token_root_span_witness:
  "TraceSpanFromCorrelationId (sample_ids sample_fresh) [] ''op'' ''method'' ''target'' ''caller'' ''GET'' =
     Inr (Some sample_fresh,
          Some \<lparr>Name = ''op'', Parent = NoParent, own_context = sample_fresh,
                Calls =
                  [AnnotateCall
                     [StringAttribute ''actionMethod'' ''method'', StringAttribute ''targetID'' ''target'',
                      StringAttribute ''from'' ''caller'', StringAttribute ''verbMethod'' ''GET'']
                     ''actionCall'',
                   AddAttributesCall
                     [StringAttribute ''actionMethod'' ''method'', StringAttribute ''targetID'' ''target'',
                      StringAttribute ''from'' ''caller'', StringAttribute ''verbMethod'' ''GET'']]\<rparr>)"
proof -
  have e: "TraceSpanFromCorrelationId (sample_ids sample_fresh) [] ''op'' ''method'' ''target'' ''caller'' ''GET'' =
     Inr (Some sample_fresh,
          Some \<lparr>Name = ''op'', Parent = NoParent, own_context = sample_fresh,
                Calls =
                  [AnnotateCall
                     [StringAttribute ''actionMethod'' ''method'', StringAttribute ''targetID'' ''target'',
                      StringAttribute ''from'' ''caller'', StringAttribute ''verbMethod'' ''GET'']
                     ''actionCall'',
                   AddAttributesCall
                     [StringAttribute ''actionMethod'' ''method'', StringAttribute ''targetID'' ''target'',
                      StringAttribute ''from'' ''caller'', StringAttribute ''verbMethod'' ''GET'']]\<rparr>)"
    by (simp add: TraceSpanFromCorrelationId_def StartSpan_def Background_def Annotate_def
        AddAttributes_def sample_ids_def Let_def)
  show ?thesis
    using absent_token_root_span [of "sample_ids sample_fresh" "''op''" "''method''" "''target''"
        "''caller''" "''GET''"] e
    by simp
qed

subsection \<open>C6: the order of the calls\<close>

text \<open>
  Claim C6.  For a list of events and a span, \<open>AddEventAnnotations\<close> adds to the
  calls of the span, for each event in the order of the list, one annotation tagged
  \<open>message\<close> and then one add-attributes call, and nothing else; the other fields of
  the span stay.  The attributes are always the four with the keys \<open>eventName\<close>,
  \<open>createdAt\<close>, \<open>concurrency\<close> and \<open>to\<close>, and an event without recipients gets
  the attribute \<open>to\<close> with the empty string.  The span is one that is not \<open>nil\<close>,
  as every span that the helpers start: on \<open>nil\<close> the methods of the runtime do
  nothing, and no call is left to see.
\<close>

theorem events_interleaved:
  "AddEventAnnotations fm (Some es) (Some sp) includeEventBody =
     Inr (Some (sp\<lparr>Calls := Calls sp @ concat (map (expected_event_calls fm includeEventBody) es)\<rparr>)) \<and>
   map attr_key (event_attrs fm e) = [''eventName'', ''createdAt'', ''concurrency'', ''to''] \<and>
   (To e = [] \<longrightarrow> event_attrs fm e ! 3 = StringAttribute ''to'' [])"
  by (simp add: AddEventAnnotations_def annotate_events_Some event_attrs_def)

theorem events_interleaved_witness:
  "AddEventAnnotations sample_printers (Some [sample_event1, sample_event2]) (Some sample_span) False =
     Inr (Some (sample_span\<lparr>Calls :=
       [AnnotateCall
          [StringAttribute ''eventName'' ''created'', StringAttribute ''createdAt'' ''7'',
           StringAttribute ''concurrency'' ''parallel'', StringAttribute ''to'' ''''] ''message'',
        AddAttributesCall
          [StringAttribute ''eventName'' ''created'', StringAttribute ''createdAt'' ''7'',
           StringAttribute ''concurrency'' ''parallel'', StringAttribute ''to'' ''''],
        AnnotateCall
          [StringAttribute ''eventName'' ''sent'', StringAttribute ''createdAt'' ''12'',
           StringAttribute ''concurrency'' ''single'', StringAttribute ''to'' ''a,b''] ''message'',
        AddAttributesCall
          [StringAttribute ''eventName'' ''sent'', StringAttribute ''createdAt'' ''12'',
           StringAttribute ''concurrency'' ''single'', StringAttribute ''to'' ''a,b'']]\<rparr>)) \<and>
   To sample_event1 = [] \<and>
   event_attrs sample_printers sample_event1 ! 3 = StringAttribute ''to'' []"
proof -
  have c: "Calls sample_span = []" and t: "To sample_event1 = []"
    by (simp_all add: sample_span_def sample_event1_def)
  show ?thesis
    using events_interleaved [of sample_printers "[sample_event1, sample_event2]" sample_span
        False sample_event1] t
    by (simp add: expected_event_calls_def sample_attrs1 sample_attrs2 c)
qed

subsection \<open>C7: the body of the event\<close>

text \<open>
  Claim C7.  Without \<open>includeEventBody\<close> no call that \<open>AddEventAnnotations\<close> adds
  carries an attribute with the key \<open>data\<close>.  With it, every add-attributes call
  carries \<open>data\<close> as its fifth attribute, the payload printed with \<open>%v\<close>, which is
  \<open><nil>\<close> for a payload that is \<open>nil\<close>; the annotation before it carries the four
  attributes only, none of them with the key \<open>data\<close>.  The span is one that is not
  \<open>nil\<close>.
\<close>

theorem body_toggle:
  "(\<exists>new. AddEventAnnotations fm (Some es) (Some sp) False =
             Inr (Some (sp\<lparr>Calls := Calls sp @ new\<rparr>)) \<and>
          (\<forall>c \<in> set new. ''data'' \<notin> attr_key ` set (call_attrs c))) \<and>
   AddEventAnnotations fm (Some es) (Some sp) True =
     Inr (Some (sp\<lparr>Calls := Calls sp @
       concat (map (\<lambda>e. [AnnotateCall (event_attrs fm e) ''message'',
                         AddAttributesCall (event_attrs fm e @
                           [StringAttribute ''data'' (Sprintf_v fm (Data e))])]) es)\<rparr>)) \<and>
   ''data'' \<notin> attr_key ` set (event_attrs fm e) \<and>
   Sprintf_v fm None = ''<nil>''"
proof -
  have nodata: "''data'' \<notin> attr_key ` set (event_attrs fm x)" for x :: "('a, 'b) Event"
    using event_attrs_keys [of fm x] by (simp flip: set_map)
  have "\<forall>c \<in> set (concat (map (expected_event_calls fm False) es)).
          ''data'' \<notin> attr_key ` set (call_attrs c)"
    using nodata by (auto simp: expected_event_calls_def)
  moreover have "AddEventAnnotations fm (Some es) (Some sp) False =
      Inr (Some (sp\<lparr>Calls := Calls sp @ concat (map (expected_event_calls fm False) es)\<rparr>))"
    by (simp add: AddEventAnnotations_def annotate_events_Some)
  ultimately have off: "\<exists>new. AddEventAnnotations fm (Some es) (Some sp) False =
             Inr (Some (sp\<lparr>Calls := Calls sp @ new\<rparr>)) \<and>
          (\<forall>c \<in> set new. ''data'' \<notin> attr_key ` set (call_attrs c))"
    by blast
  have on: "AddEventAnnotations fm (Some es) (Some sp) True =
     Inr (Some (sp\<lparr>Calls := Calls sp @
       concat (map (\<lambda>e. [AnnotateCall (event_attrs fm e) ''message'',
                         AddAttributesCall (event_attrs fm e @
                           [StringAttribute ''data'' (Sprintf_v fm (Data e))])]) es)\<rparr>))"
  proof -
    have "expected_event_calls fm True =
        (\<lambda>e. [AnnotateCall (event_attrs fm e) ''message'',
              AddAttributesCall (event_attrs fm e @
                [StringAttribute ''data'' (Sprintf_v fm (Data e))])])"
      by (rule ext) (simp add: expected_event_calls_def)
    then show ?thesis
      using annotate_events_Some [of fm es sp True] by (simp add: AddEventAnnotations_def)
  qed
  show ?thesis using off on nodata by (simp add: Sprintf_v_def)
qed

theorem body_toggle_witness:
  "AddEventAnnotations sample_printers (Some [sample_event1, sample_event2]) (Some sample_span) True =
     Inr (Some (sample_span\<lparr>Calls :=
       [AnnotateCall
          [StringAttribute ''eventName'' ''created'', StringAttribute ''createdAt'' ''7'',
           StringAttribute ''concurrency'' ''parallel'', StringAttribute ''to'' ''''] ''message'',
        AddAttributesCall
          [StringAttribute ''eventName'' ''created'', StringAttribute ''createdAt'' ''7'',
           StringAttribute ''concurrency'' ''parallel'', StringAttribute ''to'' '''',
           StringAttribute ''data'' ''<nil>''],
        AnnotateCall
          [StringAttribute ''eventName'' ''sent'', StringAttribute ''createdAt'' ''12'',
           StringAttribute ''concurrency'' ''single'', StringAttribute ''to'' ''a,b''] ''message'',
        AddAttributesCall
          [StringAttribute ''eventName'' ''sent'', StringAttribute ''createdAt'' ''12'',
           StringAttribute ''concurrency'' ''single'', StringAttribute ''to'' ''a,b'',
           StringAttribute ''data'' ''body'']]\<rparr>)) \<and>
   (\<exists>new. AddEventAnnotations sample_printers (Some [sample_event1, sample_event2])
             (Some sample_span) False = Inr (Some (sample_span\<lparr>Calls := new\<rparr>)) \<and>
          length new = 4 \<and>
          list_all (\<lambda>c. ''data'' \<notin> attr_key ` set (call_attrs c)) new)"
proof -
  have c: "Calls sample_span = []"
    by (simp add: sample_span_def)
  from body_toggle [of sample_printers "[sample_event1, sample_event2]" sample_span sample_event1]
  obtain new where
    off: "AddEventAnnotations sample_printers (Some [sample_event1, sample_event2])
             (Some sample_span) False = Inr (Some (sample_span\<lparr>Calls := Calls sample_span @ new\<rparr>))"
    and nd: "\<forall>c \<in> set new. ''data'' \<notin> attr_key ` set (call_attrs c)"
    and on: "AddEventAnnotations sample_printers (Some [sample_event1, sample_event2])
       (Some sample_span) True =
     Inr (Some (sample_span\<lparr>Calls := Calls sample_span @
       concat (map (\<lambda>e. [AnnotateCall (event_attrs sample_printers e) ''message'',
                         AddAttributesCall (event_attrs sample_printers e @
                           [StringAttribute ''data'' (Sprintf_v sample_printers (Data e))])])
                 [sample_event1, sample_event2])\<rparr>))"
    by blast
  have "AddEventAnnotations sample_printers (Some [sample_event1, sample_event2])
             (Some sample_span) False =
      Inr (Some (sample_span\<lparr>Calls := Calls sample_span @
         concat (map (expected_event_calls sample_printers False) [sample_event1, sample_event2])\<rparr>))"
    by (simp add: AddEventAnnotations_def annotate_events_Some)
  with off have "sample_span\<lparr>Calls := Calls sample_span @ new\<rparr> =
      sample_span\<lparr>Calls := Calls sample_span @
         concat (map (expected_event_calls sample_printers False) [sample_event1, sample_event2])\<rparr>"
    by simp
  then have "Calls (sample_span\<lparr>Calls := Calls sample_span @ new\<rparr>) =
      Calls (sample_span\<lparr>Calls := Calls sample_span @
         concat (map (expected_event_calls sample_printers False) [sample_event1, sample_event2])\<rparr>)"
    by (rule arg_cong)
  then have len: "length new = 4"
    by (simp add: expected_event_calls_def)
  show ?thesis
    using on off nd len
    by (auto simp: c sample_attrs1 sample_attrs2 sample_data list_all_iff)
qed

subsection \<open>C8: trace options out of range\<close>

text \<open>
  Claim C8.  For a token with at least three fields whose third field is a decimal
  numeral with a value above \<open>2^32 - 1\<close>, \<open>ParseUint\<close> reports a range error with the
  value \<open>2^32 - 1\<close>, and the identity returned has these trace options, not zero; the
  span id and the trace id are decoded from the first two fields as always.
\<close>

theorem flags_saturate:
  assumes "Split ctx CHR '';'' = f0 # f1 # f2 # rest"
    and "f2 \<noteq> []" and "list_all is_digit f2" and "2 ^ 32 - 1 < decimal_value f2"
  shows "ParseUint f2 10 32 = (2 ^ 32 - 1, Some ErrRange) \<and>
     DeserializeSpanContext ctx =
       Inr \<lparr>SpanID = copy (replicate 8 0) (fst (DecodeString f0)),
            TraceID = copy (replicate 16 0) (fst (DecodeString f1)),
            TraceOptions = 4294967295\<rparr>"
proof -
  have p: "ParseUint f2 10 32 = (2 ^ 32 - 1, Some ErrRange)"
    using ParseUint_digits [OF assms(2,3)] assms(4) by simp
  show ?thesis
    using Deserialize_fields [OF assms(1)] p by simp
qed

theorem flags_saturate_witness:
  "list_all is_digit ''4294967296'' \<and> 2 ^ 32 - 1 < decimal_value ''4294967296'' \<and>
   DeserializeSpanContext ''0123456789abcdef;00112233445566778899aabbccddeeff;4294967296'' =
     Inr \<lparr>SpanID = [1, 35, 69, 103, 137, 171, 205, 239],
          TraceID = [0, 17, 34, 51, 68, 85, 102, 119, 136, 153, 170, 187, 204, 221, 238, 255],
          TraceOptions = 4294967295\<rparr>"
proof -
  have h1: "''4294967296'' \<noteq> []" by simp
  have h2: "list_all is_digit ''4294967296''" by (simp add: is_digit_def)
  have h3: "2 ^ 32 - 1 < decimal_value ''4294967296''" by (simp add: decimal_value_def)
  have d0: "DecodeString ''0123456789abcdef'' = ([1, 35, 69, 103, 137, 171, 205, 239], None)"
    by code_simp
  have d1: "DecodeString ''00112233445566778899aabbccddeeff'' =
      ([0, 17, 34, 51, 68, 85, 102, 119, 136, 153, 170, 187, 204, 221, 238, 255], None)"
    by code_simp
  show ?thesis
    using flags_saturate [OF Split_example2 h1 h2 h3, unfolded d0 d1] h2 h3
    by (simp add: copy_def)
qed

subsection \<open>C9: identifiers that are too long\<close>

text \<open>
  Claim C9 speaks of every token whose first field is valid hex of more than 16
  characters, or whose second field is valid hex of more than 32 characters.  Such a
  token can have fewer than three fields, and then \<open>DeserializeSpanContext\<close> panics
  at \<open>parts[1]\<close> or \<open>parts[2]\<close>, before any \<open>copy\<close>: nothing is copied and nothing
  is returned.
\<close>

theorem overlong_few_fields_counterexample:
  "Split ''0102030405060708090a'' CHR '';'' = [''0102030405060708090a''] \<and>
   DecodeString ''0102030405060708090a'' = ([1, 2, 3, 4, 5, 6, 7, 8, 9, 10], None) \<and>
   16 < length ''0102030405060708090a'' \<and>
   DeserializeSpanContext ''0102030405060708090a'' = Inl (IndexOutOfRange 1 1) \<and>
   Split ''00;000102030405060708090a0b0c0d0e0f10'' CHR '';'' =
     [''00'', ''000102030405060708090a0b0c0d0e0f10''] \<and>
   DecodeString ''000102030405060708090a0b0c0d0e0f10'' =
     ([0, 1, 2, 3, 4, 5, 6, 7, 8, 9, 10, 11, 12, 13, 14, 15, 16], None) \<and>
   32 < length ''000102030405060708090a0b0c0d0e0f10'' \<and>
   DeserializeSpanContext ''00;000102030405060708090a0b0c0d0e0f10'' = Inl (IndexOutOfRange 2 2)"
  by code_simp

text \<open>
  Claim C9, as the code has it.  Take a token with at least three fields.  If its first
  field is valid hex of more than 16 characters, it decodes to more than 8 bytes, the
  span id is the first 8 of them, and the token with the first field cut to 16
  characters is another token that decodes to the same identity.  The same holds for
  the second field, 32 characters and the 16 bytes of the trace id.  So the decoding is
  not injective.
\<close>

theorem overlong_ids_truncated:
  assumes "Split ctx CHR '';'' = f0 # f1 # f2 # rest"
  shows "\<exists>r. DeserializeSpanContext ctx = Inr r \<and>
     (\<forall>sb. DecodeString f0 = (sb, None) \<and> 16 < length f0 \<longrightarrow>
        8 < length sb \<and> SpanID r = take 8 sb \<and>
        take 16 f0 @ '';'' @ f1 @ '';'' @ f2 \<noteq> ctx \<and>
        DeserializeSpanContext (take 16 f0 @ '';'' @ f1 @ '';'' @ f2) = Inr r) \<and>
     (\<forall>tb. DecodeString f1 = (tb, None) \<and> 32 < length f1 \<longrightarrow>
        16 < length tb \<and> TraceID r = take 16 tb \<and>
        f0 @ '';'' @ take 32 f1 @ '';'' @ f2 \<noteq> ctx \<and>
        DeserializeSpanContext (f0 @ '';'' @ take 32 f1 @ '';'' @ f2) = Inr r)"
proof -
  let ?r = "\<lparr>SpanID = copy (replicate 8 0) (fst (DecodeString f0)),
          TraceID = copy (replicate 16 0) (fst (DecodeString f1)),
          TraceOptions = of_nat (fst (ParseUint f2 10 32))\<rparr>"
  have r: "DeserializeSpanContext ctx = Inr ?r"
    by (rule Deserialize_fields [OF assms])
  have n0: "CHR '';'' \<notin> set f0" and n1: "CHR '';'' \<notin> set f1" and n2: "CHR '';'' \<notin> set f2"
    using Split_fields_no_sep [of _ ctx "CHR '';''"] assms by simp_all
  have span: "8 < length sb \<and> SpanID ?r = take 8 sb \<and>
        take 16 f0 @ '';'' @ f1 @ '';'' @ f2 \<noteq> ctx \<and>
        DeserializeSpanContext (take 16 f0 @ '';'' @ f1 @ '';'' @ f2) = Inr ?r"
    if d: "DecodeString f0 = (sb, None)" and l: "16 < length f0" for sb
  proof -
    have len: "8 < length sb" using DecodeString_length [OF d] l by simp
    have t0: "CHR '';'' \<notin> set (take 16 f0)" using n0 by (auto dest: in_set_takeD)
    have sp: "Split (take 16 f0 @ '';'' @ f1 @ '';'' @ f2) CHR '';'' = [take 16 f0, f1, f2]"
      using Split_three [OF t0 n1 n2] by simp
    have dt: "DecodeString (take 16 f0) = (take 8 sb, None)"
      using DecodeString_take [OF d, of 8] by simp
    have ne: "take 16 f0 @ '';'' @ f1 @ '';'' @ f2 \<noteq> ctx"
    proof
      assume "take 16 f0 @ '';'' @ f1 @ '';'' @ f2 = ctx"
      then have "take 16 f0 = f0" using sp assms by simp
      then have "length (take 16 f0) = length f0" by simp
      then show False using l by simp
    qed
    show ?thesis
      using len ne Deserialize_fields [OF sp] d dt by (simp add: copy_def)
  qed
  have trace: "16 < length tb \<and> TraceID ?r = take 16 tb \<and>
        f0 @ '';'' @ take 32 f1 @ '';'' @ f2 \<noteq> ctx \<and>
        DeserializeSpanContext (f0 @ '';'' @ take 32 f1 @ '';'' @ f2) = Inr ?r"
    if d: "DecodeString f1 = (tb, None)" and l: "32 < length f1" for tb
  proof -
    have len: "16 < length tb" using DecodeString_length [OF d] l by simp
    have t1: "CHR '';'' \<notin> set (take 32 f1)" using n1 by (auto dest: in_set_takeD)
    have sp: "Split (f0 @ '';'' @ take 32 f1 @ '';'' @ f2) CHR '';'' = [f0, take 32 f1, f2]"
      using Split_three [OF n0 t1 n2] by simp
    have dt: "DecodeString (take 32 f1) = (take 16 tb, None)"
      using DecodeString_take [OF d, of 16] by simp
    have ne: "f0 @ '';'' @ take 32 f1 @ '';'' @ f2 \<noteq> ctx"
    proof
      assume "f0 @ '';'' @ take 32 f1 @ '';'' @ f2 = ctx"
      then have "take 32 f1 = f1" using sp assms by simp
      then have "length (take 32 f1) = length f1" by simp
      then show False using l by simp
    qed
    show ?thesis
      using len ne Deserialize_fields [OF sp] d dt by (simp add: copy_def)
  qed
  show ?thesis using r span trace by blast
qed

theorem overlong_ids_truncated_witness:
  "DecodeString ''0102030405060708090a'' = ([1, 2, 3, 4, 5, 6, 7, 8, 9, 10], None) \<and>
   DecodeString ''000102030405060708090a0b0c0d0e0f10'' =
     ([0, 1, 2, 3, 4, 5, 6, 7, 8, 9, 10, 11, 12, 13, 14, 15, 16], None) \<and>
   (\<exists>r. DeserializeSpanContext
           ''0102030405060708090a;000102030405060708090a0b0c0d0e0f10;1'' = Inr r \<and>
        SpanID r = [1, 2, 3, 4, 5, 6, 7, 8] \<and>
        TraceID r = [0, 1, 2, 3, 4, 5, 6, 7, 8, 9, 10, 11, 12, 13, 14, 15] \<and>
        DeserializeSpanContext
           ''0102030405060708;000102030405060708090a0b0c0d0e0f10;1'' = Inr r \<and>
        DeserializeSpanContext
           ''0102030405060708090a;000102030405060708090a0b0c0d0e0f;1'' = Inr r)"
proof -
  have d0: "DecodeString ''0102030405060708090a'' = ([1, 2, 3, 4, 5, 6, 7, 8, 9, 10], None)"
    by code_simp
  have d1: "DecodeString ''000102030405060708090a0b0c0d0e0f10'' =
     ([0, 1, 2, 3, 4, 5, 6, 7, 8, 9, 10, 11, 12, 13, 14, 15, 16], None)"
    by code_simp
  from overlong_ids_truncated [OF Split_example3] obtain r where
    r: "DeserializeSpanContext
           ''0102030405060708090a;000102030405060708090a0b0c0d0e0f10;1'' = Inr r"
    and s: "\<And>sb. DecodeString ''0102030405060708090a'' = (sb, None) \<Longrightarrow>
        16 < length ''0102030405060708090a'' \<Longrightarrow>
        SpanID r = take 8 sb \<and>
        DeserializeSpanContext (take 16 ''0102030405060708090a'' @ '';'' @
          ''000102030405060708090a0b0c0d0e0f10'' @ '';'' @ ''1'') = Inr r"
    and t: "\<And>tb. DecodeString ''000102030405060708090a0b0c0d0e0f10'' = (tb, None) \<Longrightarrow>
        32 < length ''000102030405060708090a0b0c0d0e0f10'' \<Longrightarrow>
        TraceID r = take 16 tb \<and>
        DeserializeSpanContext (''0102030405060708090a'' @ '';'' @
          take 32 ''000102030405060708090a0b0c0d0e0f10'' @ '';'' @ ''1'') = Inr r"
    by blast
  have l0: "16 < length ''0102030405060708090a''" by simp
  have l1: "32 < length ''000102030405060708090a0b0c0d0e0f10''" by simp
  show ?thesis
    using r s [OF d0 l0] t [OF d1 l1] d0 d1 by simp
qed

subsection \<open>C10: events that are nil\<close>

text \<open>
  Claim C10.  With \<open>nil\<close> for the list of events, \<open>AddEventAnnotations\<close> panics
  with a nil dereference, and so do \<open>TraceSpanFromContext\<close> and
  \<open>TraceSpanFromRoutingContext\<close> when \<open>includeEvent\<close> is true: with a routing context
  the panic is this one or, for a header with too few fields, the one of the decoding.
\<close>

theorem nil_events_fault:
  "AddEventAnnotations fm None span includeEventBody = Inl NilPointerDereference \<and>
   TraceSpanFromContext ids fm c None operation True includeEventBody =
     Inl NilPointerDereference \<and>
   TraceSpanFromRoutingContext ids fm None None operation True includeEventBody =
     Inl NilPointerDereference \<and>
   (\<exists>p. TraceSpanFromRoutingContext ids fm rc None operation True includeEventBody = Inl p)"
  by (auto simp: AddEventAnnotations_def TraceSpanFromContext_def StartSpan_def
      StartSpanWithRemoteParent_def TraceSpanFromRoutingContext_def Let_def
      split: option.splits sum.splits prod.splits)

theorem nil_events_fault_witness:
  "TraceSpanFromContext (sample_ids sample_fresh) sample_printers Background None ''op'' True False =
     Inl NilPointerDereference \<and>
   TraceSpanFromRoutingContext (sample_ids sample_fresh) sample_printers
     (Some \<lparr>Request_Header = Map.empty\<rparr>) None ''op'' True False = Inl NilPointerDereference \<and>
   TraceSpanFromContext (sample_ids sample_fresh) sample_printers Background (Some []) ''op'' True False =
     Inr (Some sample_fresh, Some sample_span, Some sample_fresh)"
proof -
  have r: "TraceSpanFromRoutingContext (sample_ids sample_fresh) sample_printers
     (Some \<lparr>Request_Header = Map.empty\<rparr>) None ''op'' True False = Inl NilPointerDereference"
    by (simp add: TraceSpanFromRoutingContext_def Peek_def StartSpan_def AddEventAnnotations_def Let_def)
  have ok: "TraceSpanFromContext (sample_ids sample_fresh) sample_printers Background (Some []) ''op'' True False =
     Inr (Some sample_fresh, Some sample_span, Some sample_fresh)"
    by (simp add: TraceSpanFromContext_def StartSpan_def Background_def AddEventAnnotations_def
        Span_SpanContext_def sample_ids_def sample_span_def Let_def)
  show ?thesis
    using nil_events_fault [of sample_printers None False "sample_ids sample_fresh" Background "''op''"
        "Some \<lparr>Request_Header = Map.empty\<rparr>"] r ok
    by simp
qed

end
